theory Spec2Isabelle
  imports Main "HOL-Library.Word"
begin

section \<open>The execution context (ExecutorContext.h)\<close>

text \<open>
  The header keeps the per-site data of the execution engine. Pointers are modelled by
  their value only (\<open>NULL\<close> or an address); \<open>int\<close> is a 32-bit word, \<open>int64_t\<close> a
  64-bit word whose \<open>+\<close> wraps and whose \<open>>>\<close> is the arithmetic shift
  \<open>signed_drop_bit\<close>. The value class \<open>NValue\<close> is declared elsewhere and is the type
  parameter \<open>'v\<close>.
\<close>

datatype pointer = NULL | Addr nat

type_synonym int32 = "32 word"
type_synonym int64 = "64 word"

datatype error = AssertionFailed | NullDereference

subsection \<open>struct SubqueryContext\<close>

record 'v SubqueryContext =
  m_stmtId :: int64
  m_lastResult :: 'v
  m_lastParams :: "'v list"

text \<open>The constructor widens the \<open>int\<close> statement id to the \<open>int64_t\<close> member.\<close>

definition newSubqueryContext :: "int32 \<Rightarrow> 'v \<Rightarrow> 'v list \<Rightarrow> 'v SubqueryContext" where
  "newSubqueryContext stmtId result lastParams =
     \<lparr> m_stmtId = scast stmtId, m_lastResult = result, m_lastParams = lastParams \<rparr>"

definition getStatementId :: "'v SubqueryContext \<Rightarrow> int32" where
  "getStatementId c = ucast (m_stmtId c)"

definition getResult :: "'v SubqueryContext \<Rightarrow> 'v" where
  "getResult c = m_lastResult c"

definition setResult :: "'v \<Rightarrow> 'v SubqueryContext \<Rightarrow> 'v SubqueryContext" where
  "setResult result c = c\<lparr> m_lastResult := result \<rparr>"

definition getLastParams :: "'v SubqueryContext \<Rightarrow> 'v list" where
  "getLastParams c = m_lastParams c"

subsection \<open>class ExecutorContext\<close>

record 'v ExecutorContext =
  m_topEnd :: pointer
  m_tempStringPool :: pointer
  m_undoQuantum :: pointer
  m_staticParams :: pointer
  m_executorsMap :: pointer
  m_subqueryContextMap :: "int32 \<rightharpoonup> 'v SubqueryContext"
  m_spHandle :: int64
  m_uniqueId :: int64
  m_currentTxnTimestamp :: int64
  m_lastCommittedSpHandle :: int64
  m_siteId :: int64
  m_partitionId :: int32
  m_hostname :: string
  m_hostId :: int32
  m_exportEnabled :: bool
  m_epoch :: int64

definition setPartitionId :: "int32 \<Rightarrow> 'v ExecutorContext \<Rightarrow> 'v ExecutorContext" where
  "setPartitionId partitionId ec = ec\<lparr> m_partitionId := partitionId \<rparr>"

definition setEpoch :: "int64 \<Rightarrow> 'v ExecutorContext \<Rightarrow> 'v ExecutorContext" where
  "setEpoch epoch ec = ec\<lparr> m_epoch := epoch \<rparr>"

text \<open>
  The four assignments in the order of the source: the timestamp is computed from the
  member \<open>m_uniqueId\<close> before that member is overwritten by the argument.
\<close>

definition setupForPlanFragments ::
  "pointer \<Rightarrow> int64 \<Rightarrow> int64 \<Rightarrow> int64 \<Rightarrow> 'v ExecutorContext \<Rightarrow> 'v ExecutorContext" where
  "setupForPlanFragments undoQuantum spHandle lastCommittedSpHandle uniqueId ec =
     (let ec1 = ec\<lparr> m_undoQuantum := undoQuantum \<rparr>;
          ec2 = ec1\<lparr> m_spHandle := spHandle \<rparr>;
          ec3 = ec2\<lparr> m_lastCommittedSpHandle := lastCommittedSpHandle \<rparr>;
          ec4 = ec3\<lparr> m_currentTxnTimestamp := signed_drop_bit 23 (m_uniqueId ec3) + m_epoch ec3 \<rparr>
      in ec4\<lparr> m_uniqueId := uniqueId \<rparr>)"

definition setupForTick :: "int64 \<Rightarrow> 'v ExecutorContext \<Rightarrow> 'v ExecutorContext" where
  "setupForTick lastCommittedSpHandle ec = ec\<lparr> m_lastCommittedSpHandle := lastCommittedSpHandle \<rparr>"

definition setupForQuiesce :: "int64 \<Rightarrow> 'v ExecutorContext \<Rightarrow> 'v ExecutorContext" where
  "setupForQuiesce lastCommittedSpHandle ec = ec\<lparr> m_lastCommittedSpHandle := lastCommittedSpHandle \<rparr>"

text \<open>The one-argument overload used by tests.\<close>

definition setupForPlanFragments1 :: "pointer \<Rightarrow> 'v ExecutorContext \<Rightarrow> 'v ExecutorContext" where
  "setupForPlanFragments1 undoQuantum ec = ec\<lparr> m_undoQuantum := undoQuantum \<rparr>"

text \<open>\<open>assert(executorsMap != NULL)\<close> is a branch of the model: the call does not return.\<close>

definition setupForExecutors :: "pointer \<Rightarrow> 'v ExecutorContext \<Rightarrow> error + 'v ExecutorContext" where
  "setupForExecutors executorsMap ec =
     (if executorsMap = NULL then Inl AssertionFailed
      else Inr (ec\<lparr> m_executorsMap := executorsMap, m_subqueryContextMap := Map.empty \<rparr>))"

definition currentSpHandle :: "'v ExecutorContext \<Rightarrow> int64" where
  "currentSpHandle ec = m_spHandle ec"

definition currentUniqueId :: "'v ExecutorContext \<Rightarrow> int64" where
  "currentUniqueId ec = m_uniqueId ec"

definition currentTxnTimestamp :: "'v ExecutorContext \<Rightarrow> int64" where
  "currentTxnTimestamp ec = m_currentTxnTimestamp ec"

definition lastCommittedSpHandle :: "'v ExecutorContext \<Rightarrow> int64" where
  "lastCommittedSpHandle ec = m_lastCommittedSpHandle ec"

text \<open>
  \<open>getSubqueryContext\<close> returns the address of the map's element or \<open>NULL\<close>. The address
  of an element of a \<open>std::map\<close> is determined by its key, so the returned pointer is
  modelled by the element it points to (\<open>None\<close> for \<open>NULL\<close>); a write through it is
  \<open>writeSubqueryContext\<close> below.
\<close>

definition getSubqueryContext :: "int32 \<Rightarrow> 'v ExecutorContext \<Rightarrow> 'v SubqueryContext option" where
  "getSubqueryContext stmtId ec = m_subqueryContextMap ec stmtId"

text \<open>\<open>std::map::insert\<close> adds the pair only when the key is absent.\<close>

definition setSubqueryContext ::
  "int32 \<Rightarrow> 'v SubqueryContext \<Rightarrow> 'v ExecutorContext \<Rightarrow> 'v ExecutorContext" where
  "setSubqueryContext stmtId context ec =
     (case m_subqueryContextMap ec stmtId of
        None \<Rightarrow> ec\<lparr> m_subqueryContextMap := (m_subqueryContextMap ec)(stmtId \<mapsto> context) \<rparr>
      | Some _ \<Rightarrow> ec)"

text \<open>
  A caller's update through the pointer that \<open>getSubqueryContext\<close> returned, such as
  \<open>getSubqueryContext(s)->setResult(r)\<close>: the element stored under the key is replaced
  by its updated copy; through \<open>NULL\<close> there is nothing to write to.
\<close>

definition writeSubqueryContext ::
  "int32 \<Rightarrow> ('v SubqueryContext \<Rightarrow> 'v SubqueryContext) \<Rightarrow> 'v ExecutorContext
     \<Rightarrow> error + 'v ExecutorContext" where
  "writeSubqueryContext stmtId f ec =
     (case getSubqueryContext stmtId ec of
        None \<Rightarrow> Inl NullDereference
      | Some c \<Rightarrow> Inr (ec\<lparr> m_subqueryContextMap := (m_subqueryContextMap ec)(stmtId \<mapsto> f c) \<rparr>))"

subsection \<open>Sequences of calls\<close>

text \<open>The mutating members of the class, and the two writes a holder of the pointer can do.\<close>

datatype 'v call =
    SetPartitionId int32
  | SetEpoch int64
  | SetupForPlanFragments pointer int64 int64 int64
  | SetupForTick int64
  | SetupForQuiesce int64
  | SetupForPlanFragments1 pointer
  | SetupForExecutors pointer
  | SetSubqueryContext int32 "'v SubqueryContext"
  | SetResultVia int32 'v
  | SetLastParamsVia int32 "'v list"

fun perform :: "'v call \<Rightarrow> 'v ExecutorContext \<Rightarrow> error + 'v ExecutorContext" where
  "perform (SetPartitionId p) ec = Inr (setPartitionId p ec)"
| "perform (SetEpoch e) ec = Inr (setEpoch e ec)"
| "perform (SetupForPlanFragments uq sp lc u) ec = Inr (setupForPlanFragments uq sp lc u ec)"
| "perform (SetupForTick lc) ec = Inr (setupForTick lc ec)"
| "perform (SetupForQuiesce lc) ec = Inr (setupForQuiesce lc ec)"
| "perform (SetupForPlanFragments1 uq) ec = Inr (setupForPlanFragments1 uq ec)"
| "perform (SetupForExecutors m) ec = setupForExecutors m ec"
| "perform (SetSubqueryContext s c) ec = Inr (setSubqueryContext s c ec)"
| "perform (SetResultVia s r) ec = writeSubqueryContext s (setResult r) ec"
| "perform (SetLastParamsVia s ps) ec = writeSubqueryContext s (\<lambda>c. c\<lparr> m_lastParams := ps \<rparr>) ec"

fun run :: "'v call list \<Rightarrow> 'v ExecutorContext \<Rightarrow> error + 'v ExecutorContext" where
  "run [] ec = Inr ec"
| "run (c # cs) ec = (case perform c ec of Inl e \<Rightarrow> Inl e | Inr ec' \<Rightarrow> run cs ec')"

text \<open>
  What the description of the cache says is stored for a statement id after a history of
  calls, read from the latest call backwards: nothing at the start and nothing after an
  executors-map setup; the first context stored for the id since then, with the result
  and the parameter values last written into it.
\<close>

fun stored_context :: "int32 \<Rightarrow> 'v call list \<Rightarrow> 'v SubqueryContext option" where
  "stored_context s [] = None"
| "stored_context s (SetupForExecutors m # earlier) = None"
| "stored_context s (SetSubqueryContext s' c # earlier) =
     (if s' = s then (case stored_context s earlier of None \<Rightarrow> Some c | Some old \<Rightarrow> Some old)
      else stored_context s earlier)"
| "stored_context s (SetResultVia s' r # earlier) =
     (if s' = s then map_option (\<lambda>c. c\<lparr> m_lastResult := r \<rparr>) (stored_context s earlier)
      else stored_context s earlier)"
| "stored_context s (SetLastParamsVia s' ps # earlier) =
     (if s' = s then map_option (\<lambda>c. c\<lparr> m_lastParams := ps \<rparr>) (stored_context s earlier)
      else stored_context s earlier)"
| "stored_context s (_ # earlier) = stored_context s earlier"

text \<open>A context for the concrete checks: the cache is empty, as in a new object.\<close>

definition example_context :: "bool ExecutorContext" where
  "example_context =
     \<lparr> m_topEnd = Addr 1, m_tempStringPool = Addr 2, m_undoQuantum = NULL,
       m_staticParams = Addr 3, m_executorsMap = NULL, m_subqueryContextMap = Map.empty,
       m_spHandle = 0, m_uniqueId = 25165824, m_currentTxnTimestamp = 0,
       m_lastCommittedSpHandle = 0, m_siteId = 0, m_partitionId = 0, m_hostname = ''host'',
       m_hostId = 0, m_exportEnabled = False, m_epoch = 1000 \<rparr>"

definition is_pointer_write :: "'v call \<Rightarrow> bool" where
  "is_pointer_write k = (case k of SetResultVia _ _ \<Rightarrow> True | SetLastParamsVia _ _ \<Rightarrow> True | _ \<Rightarrow> False)"

section \<open>The inlining optimizer (plannerv2, phase INLINE)\<close>

text \<open>
  Of the optimizer only its test \<open>TestInlineRules\<close> is among the source files: the plan
  nodes, the rules and the driver are not. Every definition of this section is therefore
  modelled from the specification, and where the specification and the expected plans of
  the test disagree the test is followed and the place is named.
\<close>

subsection \<open>Expressions\<close>

text \<open>
  Modelled from the spec: the expression model (section 3), which is not among the source
  files: input references, typed literals, operator calls and casts. The types are those of
  the columns and the cast targets in the expected plans of \<open>TestInlineRules\<close>
  (\<open>INTEGER\<close>, \<open>DOUBLE\<close>, \<open>VARCHAR(256)\<close>), with \<open>CHARACTER n\<close> (\<open>CHAR(n)\<close>) for a string literal; whether
  a type admits NULL (\<open>DOUBLE NOT NULL\<close>) is not modelled.
\<close>

datatype sqlType =
    TINYINT | SMALLINT | INTEGER | BIGINT | FLOAT | DOUBLE
  | CHARACTER nat | VARCHAR nat | TIMESTAMP

datatype expr =
    InputRef nat
  | Literal string sqlType
  | Call string "expr list"
  | Cast sqlType expr

text \<open>Modelled from the spec: the column positions an expression refers to.\<close>

fun refs :: "expr \<Rightarrow> nat set" where
  "refs (InputRef i) = {i}"
| "refs (Literal v ty) = {}"
| "refs (Call f es) = (\<Union>e \<in> set es. refs e)"
| "refs (Cast ty e) = refs e"

text \<open>
  Modelled from the spec: the schema an expression is read against gives each position
  its declared type, where one is known. An input reference has the type of its
  position, a literal its own, a cast its target; the specification gives no result
  types for operator calls, so a call has no known type.
\<close>

type_synonym schema = "sqlType option list"

fun type_of :: "schema \<Rightarrow> expr \<Rightarrow> sqlType option" where
  "type_of sch (InputRef i) = (if i < length sch then sch ! i else None)"
| "type_of sch (Literal v ty) = Some ty"
| "type_of sch (Call f es) = None"
| "type_of sch (Cast ty e) = Some ty"

text \<open>
  Modelled from the spec: the order in which one type is narrower than another ("narrower
  numeric type is cast up"): the numeric types by their width, and the \<open>VARCHAR\<close> types by
  their length, as the expected plan of \<open>testThreeWayJoin\<close> casts the key \<open>R2.v\<close> to
  \<open>VARCHAR(256)\<close>. Types of different families are not ordered, and a string literal is
  compared with a \<open>VARCHAR\<close> column as it is (\<open>v = 'FOO1'\<close> in
  \<open>testSeqScanWithStringFilter\<close>).
\<close>

datatype typeFamily = Numeric | Textual

fun type_width :: "sqlType \<Rightarrow> (typeFamily \<times> nat) option" where
  "type_width TINYINT = Some (Numeric, 1)"
| "type_width SMALLINT = Some (Numeric, 2)"
| "type_width INTEGER = Some (Numeric, 3)"
| "type_width BIGINT = Some (Numeric, 4)"
| "type_width FLOAT = Some (Numeric, 5)"
| "type_width DOUBLE = Some (Numeric, 6)"
| "type_width (VARCHAR n) = Some (Textual, n)"
| "type_width (CHARACTER n) = None"
| "type_width TIMESTAMP = None"

text \<open>
  Modelled from the spec: whether one type is narrower than the other: both are ordered,
  of one family, and the first has the smaller width.
\<close>

definition narrower :: "sqlType \<Rightarrow> sqlType \<Rightarrow> bool" where
  "narrower ta tb =
     (case (type_width ta, type_width tb) of
        (Some (fa, wa), Some (fb, wb)) \<Rightarrow> fa = fb \<and> wa < wb
      | _ \<Rightarrow> False)"

text \<open>
  Modelled from the spec: the two operands of an equality after the cast is inserted: "a
  Cast on the narrower side, chosen deterministically by comparing declared column types
  (narrower numeric type is cast up)".
\<close>

definition widen :: "schema \<Rightarrow> expr \<Rightarrow> expr \<Rightarrow> expr list" where
  "widen sch a b =
     (case (type_of sch a, type_of sch b) of
        (Some ta, Some tb) \<Rightarrow>
          if narrower ta tb then [Cast tb a, b]
          else if narrower tb ta then [a, Cast ta b]
          else [a, b]
      | _ \<Rightarrow> [a, b])"

text \<open>
  Modelled from the spec: cast insertion in a condition. The specification inserts the
  cast "when operand types on either side of a comparison/join key differ"; the expected
  plans of \<open>TestInlineRules\<close> have it for \<open>=\<close> only
  (\<open>testSeqScanWithFilterWithTypeConversion\<close>, \<open>testJoin\<close>) and leave the operands of
  \<open>>\<close> as they are (\<open>si > 3\<close> in \<open>testSeqScanWithFilterAndLimit\<close>, \<open>R1.ti > R2.i\<close>
  in \<open>testJoin\<close>), and the model follows the test.
\<close>

fun coerce :: "schema \<Rightarrow> expr \<Rightarrow> expr" where
  "coerce sch (InputRef i) = InputRef i"
| "coerce sch (Literal v ty) = Literal v ty"
| "coerce sch (Cast ty e) = Cast ty (coerce sch e)"
| "coerce sch (Call f es) =
     (case map (coerce sch) es of
        [a, b] \<Rightarrow> if f = ''='' then Call f (widen sch a b) else Call f [a, b]
      | es' \<Rightarrow> Call f es')"


subsection \<open>Plan nodes\<close>

text \<open>
  Modelled from the spec: the plan node model (section 3), which is not among the source
  files. An aggregate call is (function, argumentExpr, distinct); \<open>COUNT()\<close> has no
  argument. A fused aggregate is a descriptor (kind, groupKeys, calls, having) that
  keeps the split and coordinator of the aggregate node it came from, as the expected
  plans of \<open>testAggr\<close> print them inside the scan's \<open>aggregate\<close> attribute.
\<close>

datatype direction = ASC | DESC

datatype aggKind = Serial | Hash

datatype joinType = INNER | LEFT | RIGHT | FULL

datatype AggregateCall = AggregateCall string "expr option" bool

datatype AggregateDescriptor =
  AggregateDescriptor aggKind "nat set" "AggregateCall list" "expr option" nat bool

text \<open>
  Modelled from the spec: the five node variants of section 3, each ending in its split and
  coordinator flag.
  \<^item> \<open>Scan table baseSchemaSize projectList condition limit offset aggregate\<close>;
  \<^item> \<open>Calc projectList condition limit offset child\<close>: section 4.2 fuses a bare limit into
    "the child Scan/Calc's limit/offset fields", so a Calc has them too;
  \<^item> \<open>Sort sortKeys fetch offset child\<close>;
  \<^item> \<open>Join condition joinType left right\<close>;
  \<^item> \<open>Aggregate kind groupKeys calls having inputOrdered child\<close>: \<open>inputOrdered\<close> is what
    upstream planning knows about the child delivering its rows ordered on the group keys
    ("known from upstream planning, not recomputed here").

  The sixth variant \<open>Distinct child\<close> is the form in which a row-level DISTINCT reaches the
  rule "Distinct elimination" of section 4.2; section 3 does not list it, and no
  optimized plan contains it.
\<close>

datatype PlanNode =
    Scan string nat "expr list" "expr option" "nat option" "nat option"
      "AggregateDescriptor option" nat bool
  | Calc "expr list" "expr option" "nat option" "nat option" PlanNode nat bool
  | Sort "(expr \<times> direction) list" "nat option" "nat option" PlanNode nat bool
  | Join expr joinType PlanNode PlanNode nat bool
  | Aggregate aggKind "nat set" "AggregateCall list" "expr option" bool PlanNode nat bool
  | Distinct PlanNode nat bool

text \<open>
  Modelled from the spec: the output arity of a node (section 3, invariants): the length of
  the project list for Scan and Calc, group keys plus calls for an aggregate, also a fused
  one; the concatenation for a Join; a Sort and a DISTINCT pass their child's rows on.
\<close>

fun arity :: "PlanNode \<Rightarrow> nat" where
  "arity (Scan t n pl c lim off agg sp co) =
     (case agg of None \<Rightarrow> length pl
      | Some (AggregateDescriptor k gk calls hv asp aco) \<Rightarrow> card gk + length calls)"
| "arity (Calc pl c lim off child sp co) = length pl"
| "arity (Sort ks f off child sp co) = arity child"
| "arity (Join c jt l r sp co) = arity l + arity r"
| "arity (Aggregate k gk calls hv ord child sp co) = card gk + length calls"
| "arity (Distinct child sp co) = arity child"

text \<open>The number of nodes of a plan.\<close>

fun nodes :: "PlanNode \<Rightarrow> nat" where
  "nodes (Scan t n pl c lim off agg sp co) = 1"
| "nodes (Calc pl c lim off child sp co) = Suc (nodes child)"
| "nodes (Sort ks f off child sp co) = Suc (nodes child)"
| "nodes (Join c jt l r sp co) = Suc (nodes l + nodes r)"
| "nodes (Aggregate k gk calls hv ord child sp co) = Suc (nodes child)"
| "nodes (Distinct child sp co) = Suc (nodes child)"

text \<open>
  Modelled from the spec: the declared column types come from the catalog, which is not
  among the source files and is a parameter: the types of a table's columns in order. A
  Scan reads its base schema, the first \<open>baseSchemaSize\<close> columns.
\<close>

type_synonym catalog = "string \<Rightarrow> sqlType list"

definition base_types :: "catalog \<Rightarrow> string \<Rightarrow> nat \<Rightarrow> schema" where
  "base_types cat t n =
     map (\<lambda>i. if i < length (cat t) then Some (cat t ! i) else None) [0..<n]"

text \<open>
  Modelled from the spec: the types of a node's output columns: those of its project list
  for Scan and Calc, the concatenation for a Join; the columns of an aggregate have no
  declared type.
\<close>

fun output_types :: "catalog \<Rightarrow> PlanNode \<Rightarrow> schema" where
  "output_types cat (Scan t n pl c lim off agg sp co) =
     (case agg of None \<Rightarrow> map (type_of (base_types cat t n)) pl
      | Some (AggregateDescriptor k gk calls hv asp aco) \<Rightarrow>
          replicate (card gk + length calls) None)"
| "output_types cat (Calc pl c lim off child sp co) = map (type_of (output_types cat child)) pl"
| "output_types cat (Sort ks f off child sp co) = output_types cat child"
| "output_types cat (Join c jt l r sp co) = output_types cat l @ output_types cat r"
| "output_types cat (Aggregate k gk calls hv ord child sp co) =
     replicate (card gk + length calls) None"
| "output_types cat (Distinct child sp co) = output_types cat child"

subsection \<open>The rules\<close>

text \<open>
  Each rule is a function from a node, whose children are already rewritten, to
  "no match" (\<open>None\<close>) or the replacement. Every rule of this slice leaves the output
  positions of the node where they were, so the index map of section 4.2 is the identity
  and is not represented.
\<close>

text \<open>
  Modelled from the spec: a Scan "with no existing projectList restriction" projects its
  base columns in order.
\<close>

definition identity_projection :: "nat \<Rightarrow> expr list" where
  "identity_projection n = map InputRef [0..<n]"

text \<open>
  Modelled from the spec: "If the Scan already carries a condition, the new condition is
  combined with logical AND"; the existing condition comes first, as in the expected plan
  of \<open>testSubqueriesJoin\<close>.
\<close>

fun and_condition :: "expr option \<Rightarrow> expr option \<Rightarrow> expr option" where
  "and_condition None new = new"
| "and_condition (Some existing) None = Some existing"
| "and_condition (Some existing) (Some new) = Some (Call ''AND'' [existing, new])"

text \<open>
  Modelled from the spec: the rule "Project/filter inlining into Scan". The Scan must also
  be free of a limit, an offset and a fused aggregate: a filter may not move below a
  limit (the rewrite must keep the meaning of the plan), and the expected plans of
  \<open>testAggr\<close> keep the Calc above a Scan that carries an aggregate.
\<close>

definition inline_calc :: "PlanNode \<Rightarrow> PlanNode option" where
  "inline_calc node =
     (case node of
        Calc pl c lim off child sp co \<Rightarrow>
          (case child of
             Scan t n spl sc slim soff agg ssp sco \<Rightarrow>
               if spl = identity_projection n \<and> slim = None \<and> soff = None \<and> agg = None
               then Some (Scan t n pl (and_condition sc c) lim off None ssp sco)
               else None
           | _ \<Rightarrow> None)
      | _ \<Rightarrow> None)"

text \<open>
  Modelled from the spec: the rule "Limit/offset inlining": "a Sort with no sortKeys reduces
  to a bare limit/offset and is fused directly into the child Scan/Calc's limit/offset
  fields", which take its fetch and offset. A Sort with sort keys never matches.
\<close>

definition inline_limit :: "PlanNode \<Rightarrow> PlanNode option" where
  "inline_limit node =
     (case node of
        Sort ks f off child sp co \<Rightarrow>
          if ks \<noteq> [] then None
          else (case child of
             Scan t n pl c slim soff agg ssp sco \<Rightarrow> Some (Scan t n pl c f off agg ssp sco)
           | Calc pl c clim coff x csp cco \<Rightarrow> Some (Calc pl c f off x csp cco)
           | _ \<Rightarrow> None)
      | _ \<Rightarrow> None)"

text \<open>
  Modelled from the spec: strategy selection: "kind = Serial when groupKeys is empty or
  the child delivers rows already ordered on groupKeys; kind = Hash otherwise".
\<close>

definition select_kind :: "nat set \<Rightarrow> bool \<Rightarrow> aggKind" where
  "select_kind groupKeys inputOrdered = (if groupKeys = {} \<or> inputOrdered then Serial else Hash)"

text \<open>Modelled from the spec: the child columns an aggregate needs.\<close>

fun call_refs :: "AggregateCall \<Rightarrow> nat set" where
  "call_refs (AggregateCall f arg d) = (case arg of None \<Rightarrow> {} | Some e \<Rightarrow> refs e)"

definition needed_columns :: "nat set \<Rightarrow> AggregateCall list \<Rightarrow> nat set" where
  "needed_columns groupKeys calls = groupKeys \<union> (\<Union>c \<in> set calls. call_refs c)"

text \<open>
  Modelled from the spec: the rule "Aggregate fusion and strategy selection". The aggregate
  is fused, with the selected kind and its HAVING, into a child Scan "producing exactly
  the columns it needs" that has no limit or offset in between and no aggregate yet. The
  specification names a Calc as a target as well; the expected plan of \<open>testDistinct\<close> for
  \<open>select distinct max(TI) from R1 group by I\<close> keeps the aggregate above the Calc, and
  the model follows the test.
\<close>

definition fuse_aggregate :: "PlanNode \<Rightarrow> PlanNode option" where
  "fuse_aggregate node =
     (case node of
        Aggregate k gk calls hv ord child sp co \<Rightarrow>
          (case child of
             Scan t n pl c slim soff agg ssp sco \<Rightarrow>
               if slim = None \<and> soff = None \<and> agg = None
                  \<and> needed_columns gk calls = {0..<length pl}
               then Some (Scan t n pl c None None
                      (Some (AggregateDescriptor (select_kind gk ord) gk calls hv sp co)) ssp sco)
               else None
           | _ \<Rightarrow> None)
      | _ \<Rightarrow> None)"

text \<open>
  Modelled from the spec: an aggregate that stays a node of its own is emitted with the
  selected kind; the rule matches while the kind is another one.
\<close>

definition select_strategy :: "PlanNode \<Rightarrow> PlanNode option" where
  "select_strategy node =
     (case node of
        Aggregate k gk calls hv ord child sp co \<Rightarrow>
          if k = select_kind gk ord then None
          else Some (Aggregate (select_kind gk ord) gk calls hv ord child sp co)
      | _ \<Rightarrow> None)"

text \<open>
  Modelled from the spec: the rule "Distinct elimination": "DISTINCT over a row set is
  rewritten as a Hash aggregate with groupKeys = all selected columns and an empty calls
  list". Nothing is known from upstream about the order of its input, so strategy
  selection gives Hash whenever a column is selected.
\<close>

definition eliminate_distinct :: "PlanNode \<Rightarrow> PlanNode option" where
  "eliminate_distinct node =
     (case node of
        Distinct child sp co \<Rightarrow>
          Some (Aggregate (select_kind {0..<arity child} False) {0..<arity child} [] None False
                  child sp co)
      | _ \<Rightarrow> None)"

text \<open>
  Modelled from the spec: the rule that inserts the casts: the filter of a Scan is read
  against the base schema, the filter of a Calc against its child's output, the condition
  of a Join against "the concatenation of left then right child schemas". The rule
  matches while a cast is missing.
\<close>

definition insert_casts :: "catalog \<Rightarrow> PlanNode \<Rightarrow> PlanNode option" where
  "insert_casts cat node =
     (case node of
        Scan t n pl c lim off agg sp co \<Rightarrow>
          (let c' = map_option (coerce (base_types cat t n)) c
           in if c' = c then None else Some (Scan t n pl c' lim off agg sp co))
      | Calc pl c lim off child sp co \<Rightarrow>
          (let c' = map_option (coerce (output_types cat child)) c
           in if c' = c then None else Some (Calc pl c' lim off child sp co))
      | Join c jt l r sp co \<Rightarrow>
          (let c' = coerce (output_types cat l @ output_types cat r) c
           in if c' = c then None else Some (Join c' jt l r sp co))
      | _ \<Rightarrow> None)"

subsection \<open>The rewrite driver\<close>

text \<open>
  Modelled from the spec: the rule set applied at one node whose children are rewritten:
  a DISTINCT is first turned into its aggregate and missing casts are inserted, then the
  first fusion rule that matches gives the replacement.
\<close>

definition rewrite_node :: "catalog \<Rightarrow> PlanNode \<Rightarrow> PlanNode" where
  "rewrite_node cat node =
     (let node1 = (case eliminate_distinct node of Some r \<Rightarrow> r | None \<Rightarrow> node);
          node2 = (case insert_casts cat node1 of Some r \<Rightarrow> r | None \<Rightarrow> node1) in
      case inline_calc node2 of Some r \<Rightarrow> r | None \<Rightarrow>
      (case inline_limit node2 of Some r \<Rightarrow> r | None \<Rightarrow>
      (case fuse_aggregate node2 of Some r \<Rightarrow> r | None \<Rightarrow>
      (case select_strategy node2 of Some r \<Rightarrow> r | None \<Rightarrow> node2))))"

text \<open>
  Modelled from the spec: one bottom-up pass (section 4.3): "children rewritten before the
  parent is considered".
\<close>

fun pass :: "catalog \<Rightarrow> PlanNode \<Rightarrow> PlanNode" where
  "pass cat (Scan t n pl c lim off agg sp co) = rewrite_node cat (Scan t n pl c lim off agg sp co)"
| "pass cat (Calc pl c lim off child sp co) =
     rewrite_node cat (Calc pl c lim off (pass cat child) sp co)"
| "pass cat (Sort ks f off child sp co) = rewrite_node cat (Sort ks f off (pass cat child) sp co)"
| "pass cat (Join c jt l r sp co) = rewrite_node cat (Join c jt (pass cat l) (pass cat r) sp co)"
| "pass cat (Aggregate k gk calls hv ord child sp co) =
     rewrite_node cat (Aggregate k gk calls hv ord (pass cat child) sp co)"
| "pass cat (Distinct child sp co) = rewrite_node cat (Distinct (pass cat child) sp co)"

text \<open>
  Modelled from the spec: the fixpoint loop (section 4.3): "After one bottom-up pass, if any
  rule fired anywhere in the tree, the pass repeats"; a rule has fired exactly when the
  pass changed the tree. The loop is given fuel, and running out of it is \<open>None\<close>.
\<close>

fun rewrite_to_fixpoint :: "catalog \<Rightarrow> nat \<Rightarrow> PlanNode \<Rightarrow> PlanNode option" where
  "rewrite_to_fixpoint cat 0 t = None"
| "rewrite_to_fixpoint cat (Suc fuel) t =
     (let t' = pass cat t in if t' = t then Some t else rewrite_to_fixpoint cat fuel t')"

text \<open>
  Modelled from the spec: the optimizer: the loop with one round of fuel for every node of
  the input and one for the round that finds nothing to do.
\<close>

definition optimize :: "catalog \<Rightarrow> PlanNode \<Rightarrow> PlanNode option" where
  "optimize cat t = rewrite_to_fixpoint cat (Suc (nodes t)) t"

subsection \<open>Reading a plan\<close>

text \<open>The nodes of a plan, each with the plan beneath it.\<close>

fun subtrees :: "PlanNode \<Rightarrow> PlanNode set" where
  "subtrees (Scan t n pl c lim off agg sp co) = {Scan t n pl c lim off agg sp co}"
| "subtrees (Calc pl c lim off child sp co) =
     insert (Calc pl c lim off child sp co) (subtrees child)"
| "subtrees (Sort ks f off child sp co) = insert (Sort ks f off child sp co) (subtrees child)"
| "subtrees (Join c jt l r sp co) = insert (Join c jt l r sp co) (subtrees l \<union> subtrees r)"
| "subtrees (Aggregate k gk calls hv ord child sp co) =
     insert (Aggregate k gk calls hv ord child sp co) (subtrees child)"
| "subtrees (Distinct child sp co) = insert (Distinct child sp co) (subtrees child)"

text \<open>The aggregates that are fused into the scans of a plan.\<close>

fun descriptors :: "PlanNode \<Rightarrow> AggregateDescriptor set" where
  "descriptors (Scan t n pl c lim off agg sp co) = set_option agg"
| "descriptors (Calc pl c lim off child sp co) = descriptors child"
| "descriptors (Sort ks f off child sp co) = descriptors child"
| "descriptors (Join c jt l r sp co) = descriptors l \<union> descriptors r"
| "descriptors (Aggregate k gk calls hv ord child sp co) = descriptors child"
| "descriptors (Distinct child sp co) = descriptors child"

text \<open>
  The number of aggregation and duplicate-removing stages of a plan: aggregate nodes,
  fused aggregates and DISTINCT markers.
\<close>

fun stages :: "PlanNode \<Rightarrow> nat" where
  "stages (Scan t n pl c lim off agg sp co) = (case agg of None \<Rightarrow> 0 | Some d \<Rightarrow> 1)"
| "stages (Calc pl c lim off child sp co) = stages child"
| "stages (Sort ks f off child sp co) = stages child"
| "stages (Join c jt l r sp co) = stages l + stages r"
| "stages (Aggregate k gk calls hv ord child sp co) = Suc (stages child)"
| "stages (Distinct child sp co) = Suc (stages child)"


text \<open>Whether some rule matches at a node, and whether one matches anywhere in a plan.\<close>

fun fired :: "PlanNode option \<Rightarrow> bool" where
  "fired None = False"
| "fired (Some r) = True"

definition rule_matches :: "catalog \<Rightarrow> PlanNode \<Rightarrow> bool" where
  "rule_matches cat node =
     (fired (eliminate_distinct node) \<or> fired (insert_casts cat node) \<or> fired (inline_calc node)
      \<or> fired (inline_limit node) \<or> fired (fuse_aggregate node) \<or> fired (select_strategy node))"

fun matchable :: "catalog \<Rightarrow> PlanNode \<Rightarrow> bool" where
  "matchable cat (Scan t n pl c lim off agg sp co) =
     rule_matches cat (Scan t n pl c lim off agg sp co)"
| "matchable cat (Calc pl c lim off child sp co) =
     (rule_matches cat (Calc pl c lim off child sp co) \<or> matchable cat child)"
| "matchable cat (Sort ks f off child sp co) =
     (rule_matches cat (Sort ks f off child sp co) \<or> matchable cat child)"
| "matchable cat (Join c jt l r sp co) =
     (rule_matches cat (Join c jt l r sp co) \<or> matchable cat l \<or> matchable cat r)"
| "matchable cat (Aggregate k gk calls hv ord child sp co) =
     (rule_matches cat (Aggregate k gk calls hv ord child sp co) \<or> matchable cat child)"
| "matchable cat (Distinct child sp co) =
     (rule_matches cat (Distinct child sp co) \<or> matchable cat child)"


subsection \<open>Plans of the test\<close>

text \<open>
  Modelled from the spec: the catalog of the test schema, whose DDL
  (\<open>testcalcite-ddl.sql\<close>) is not among the source files. \<open>R1\<close> and \<open>R2\<close> have six
  columns (\<open>expr#0..5\<close> in the expected plans): \<open>i\<close>, \<open>si\<close>, \<open>ti\<close>, \<open>bi\<close>, \<open>f\<close>,
  \<open>v\<close>; the column types are the ones the names abbreviate, and the expected plans
  agree where they show a type: \<open>si\<close> is cast to \<open>INTEGER\<close> to be compared with \<open>i\<close>
  and with an integer literal, \<open>f\<close> to \<open>DOUBLE\<close> to be compared with \<open>30.3\<close>, and
  \<open>v\<close> to \<open>VARCHAR(256)\<close> to be compared with the column \<open>vc\<close> of \<open>R3\<close>, the
  second of its three columns; the length of \<open>v\<close> is not shown and is taken as 32.
\<close>

definition test_catalog :: catalog where
  "test_catalog t =
     (if t = ''R1'' \<or> t = ''R2''
      then [INTEGER, SMALLINT, TINYINT, BIGINT, FLOAT, VARCHAR 32]
      else if t = ''R3'' then [INTEGER, VARCHAR 256, INTEGER]
      else [])"

text \<open>The tables of \<open>TestInlineRules\<close> as unrestricted scans.\<close>

definition R1 :: PlanNode where
  "R1 = Scan ''R1'' 6 (identity_projection 6) None None None None 1 False"

definition R2 :: PlanNode where
  "R2 = Scan ''R2'' 6 (identity_projection 6) None None None None 1 False"

text \<open>Scan and Calc are the producers, the nodes a limit can be fused into.\<close>

fun is_producer :: "PlanNode \<Rightarrow> bool" where
  "is_producer (Scan t n pl c lim off agg sp co) = True"
| "is_producer (Calc pl c lim off child sp co) = True"
| "is_producer _ = False"







section \<open>Properties of the execution context\<close>

lemma run_append:
  "run (cs @ ds) ec = (case run cs ec of Inl e \<Rightarrow> Inl e | Inr ec' \<Rightarrow> run ds ec')"
  by (induction cs arbitrary: ec) (auto split: sum.splits)

lemma perform_stored:
  assumes "perform c ec = Inr ec'"
    and "stored_context s earlier = m_subqueryContextMap ec s"
  shows "stored_context s (c # earlier) = m_subqueryContextMap ec' s"
  using assms
  by (cases c)
    (auto simp: setPartitionId_def setEpoch_def setupForPlanFragments_def Let_def
      setupForTick_def setupForQuiesce_def setupForPlanFragments1_def setupForExecutors_def
      setSubqueryContext_def writeSubqueryContext_def getSubqueryContext_def setResult_def
      split: if_splits option.splits)

lemma run_stored:
  "run cs ec = Inr ec' \<Longrightarrow> m_subqueryContextMap ec = Map.empty
     \<Longrightarrow> stored_context s (rev cs) = m_subqueryContextMap ec' s"
proof (induction cs arbitrary: ec' rule: rev_induct)
  case Nil
  then show ?case by simp
next
  case (snoc c cs)
  from snoc.prems(1) obtain mid where mid: "run cs ec = Inr mid" and last: "perform c mid = Inr ec'"
    by (auto simp: run_append split: sum.splits)
  from snoc.IH [OF mid snoc.prems(2)]
  have "stored_context s (rev cs) = m_subqueryContextMap mid s" .
  from perform_stored [OF last this] show ?case by simp
qed


text \<open>
  Claim C7. For every statement id \<open>s\<close>, after any history of calls on a context whose
  cache started empty, \<open>getSubqueryContext s\<close> returns the context stored for \<open>s\<close>
  since the last \<open>setupForExecutors\<close>, with the result and the parameter values last
  written into it, and \<open>NULL\<close> (\<open>None\<close>) when none has been stored.
\<close>

theorem getSubqueryContext_returns_stored:
  assumes "m_subqueryContextMap ec0 = Map.empty" and "run cs ec0 = Inr ec"
  shows "getSubqueryContext s ec = stored_context s (rev cs)"
  using run_stored [OF assms(2) assms(1), of s] by (simp add: getSubqueryContext_def)

theorem getSubqueryContext_returns_stored_witness:
  "\<exists>ec. m_subqueryContextMap example_context = Map.empty
     \<and> run [SetSubqueryContext 7 (newSubqueryContext 7 True [True]),
             SetupForExecutors (Addr 4),
             SetSubqueryContext 1 (newSubqueryContext 1 True [False]),
             SetSubqueryContext 1 (newSubqueryContext 1 False []),
             SetResultVia 1 False] example_context = Inr ec
     \<and> getSubqueryContext 1 ec = Some (newSubqueryContext 1 False [False])
     \<and> getSubqueryContext 7 ec = None"
proof -
  let ?cs = "[SetSubqueryContext 7 (newSubqueryContext 7 True [True]),
             SetupForExecutors (Addr 4),
             SetSubqueryContext 1 (newSubqueryContext 1 True [False]),
             SetSubqueryContext 1 (newSubqueryContext 1 False []),
             SetResultVia 1 False]"
  have e: "m_subqueryContextMap example_context = Map.empty"
    by (simp add: example_context_def)
  obtain ec where r: "run ?cs example_context = Inr ec"
    by (simp add: setSubqueryContext_def setupForExecutors_def writeSubqueryContext_def
        getSubqueryContext_def e)
  have "getSubqueryContext 1 ec = Some (newSubqueryContext 1 False [False])"
    using getSubqueryContext_returns_stored [OF e r, of 1] by (simp add: newSubqueryContext_def)
  moreover have "getSubqueryContext 7 ec = None"
    using getSubqueryContext_returns_stored [OF e r, of 7] by simp
  ultimately show ?thesis using e r by blast
qed

text \<open>
  Claim C8. After \<open>setupForPlanFragments\<close> the transaction timestamp is the unique id
  held before the call, shifted right by 23 bits, plus the epoch; the argument
  \<open>uniqueId\<close> is only stored, and enters the timestamp of the next call.
\<close>

theorem setupForPlanFragments_timestamp_from_previous_id:
  "currentTxnTimestamp (setupForPlanFragments uq sp lc u ec)
     = signed_drop_bit 23 (m_uniqueId ec) + m_epoch ec
   \<and> currentUniqueId (setupForPlanFragments uq sp lc u ec) = u
   \<and> currentTxnTimestamp (setupForPlanFragments uq' sp' lc' u' (setupForPlanFragments uq sp lc u ec))
     = signed_drop_bit 23 u + m_epoch ec"
  by (simp add: currentTxnTimestamp_def currentUniqueId_def setupForPlanFragments_def)

text \<open>
  Claim C9. When a context is already stored for \<open>s\<close>, \<open>setSubqueryContext s c\<close>
  leaves the whole object as it was, so the stored context is unchanged and \<open>c\<close> is
  dropped; and any call after which a different context is stored for \<open>s\<close> is a write
  through the pointer that \<open>getSubqueryContext\<close> returned.
\<close>

theorem setSubqueryContext_keeps_existing:
  assumes "getSubqueryContext s ec = Some old"
  shows "setSubqueryContext s c ec = ec
    \<and> getSubqueryContext s (setSubqueryContext s c ec) = Some old
    \<and> (\<forall>k ec' new. perform k ec = Inr ec' \<and> getSubqueryContext s ec' = Some new \<and> new \<noteq> old
          \<longrightarrow> is_pointer_write k)"
proof (intro conjI allI impI)
  show same: "setSubqueryContext s c ec = ec"
    using assms by (simp add: setSubqueryContext_def getSubqueryContext_def)
  show "getSubqueryContext s (setSubqueryContext s c ec) = Some old"
    using assms same by simp
next
  fix k ec' new
  assume h: "perform k ec = Inr ec' \<and> getSubqueryContext s ec' = Some new \<and> new \<noteq> old"
  with assms show "is_pointer_write k"
    by (cases k)
      (auto simp: setPartitionId_def setEpoch_def setupForPlanFragments_def Let_def
        setupForTick_def setupForQuiesce_def setupForPlanFragments1_def setupForExecutors_def
        setSubqueryContext_def getSubqueryContext_def is_pointer_write_def
        split: if_splits option.splits)
qed

theorem setSubqueryContext_keeps_existing_witness:
  "getSubqueryContext 1 (setSubqueryContext 1 (newSubqueryContext 1 True [False]) example_context)
     = Some (newSubqueryContext 1 True [False])
   \<and> setSubqueryContext 1 (newSubqueryContext 1 False [])
       (setSubqueryContext 1 (newSubqueryContext 1 True [False]) example_context)
     = setSubqueryContext 1 (newSubqueryContext 1 True [False]) example_context"
proof -
  have h: "getSubqueryContext 1 (setSubqueryContext 1 (newSubqueryContext 1 True [False]) example_context)
     = Some (newSubqueryContext 1 True [False])"
    by (simp add: getSubqueryContext_def setSubqueryContext_def example_context_def)
  from setSubqueryContext_keeps_existing [OF h, of "newSubqueryContext 1 False []"] h
  show ?thesis by blast
qed

text \<open>
  Claim C10. Every call of \<open>setupForExecutors m\<close> that returns installs \<open>m\<close> as the
  executors map and empties the cache: afterwards \<open>getSubqueryContext s\<close> is \<open>NULL\<close>
  for every \<open>s\<close>, whatever was stored before. The call returns for every \<open>m\<close> that
  passes its assertion.
\<close>

theorem setupForExecutors_clears_cache:
  "(m \<noteq> NULL \<longrightarrow> (\<exists>ec'. setupForExecutors m ec = Inr ec'))
   \<and> (\<forall>ec'. setupForExecutors m ec = Inr ec'
        \<longrightarrow> m_executorsMap ec' = m \<and> (\<forall>s. getSubqueryContext s ec' = None))"
  by (auto simp: setupForExecutors_def getSubqueryContext_def)

theorem setupForExecutors_clears_cache_witness:
  "\<exists>ec'. setupForExecutors (Addr 9)
            (setSubqueryContext 1 (newSubqueryContext 1 True [False]) example_context) = Inr ec'
      \<and> m_executorsMap ec' = Addr 9 \<and> getSubqueryContext 1 ec' = None"
proof -
  let ?ec = "setSubqueryContext 1 (newSubqueryContext 1 True [False]) example_context"
  have n: "Addr 9 \<noteq> NULL" by simp
  from setupForExecutors_clears_cache [of "Addr 9" ?ec] n
  obtain ec' where r: "setupForExecutors (Addr 9) ?ec = Inr ec'" by blast
  with setupForExecutors_clears_cache [of "Addr 9" ?ec]
  have "m_executorsMap ec' = Addr 9 \<and> getSubqueryContext 1 ec' = None" by blast
  with r show ?thesis by blast
qed
section \<open>Properties of the optimizer\<close>


lemmas rule_defs = inline_calc_def inline_limit_def fuse_aggregate_def select_strategy_def
  eliminate_distinct_def

lemma casts_none [simp]:
  "insert_casts cat (Sort ks f off ch sp co) = None"
  "insert_casts cat (Aggregate k gk calls hv ord ch sp co) = None"
  "insert_casts cat (Distinct ch sp co) = None"
  by (simp_all add: insert_casts_def)

lemma casts_fired [simp]:
  "fired (insert_casts cat (Scan t n pl c lim off agg sp co))
     \<longleftrightarrow> map_option (coerce (base_types cat t n)) c \<noteq> c"
  "fired (insert_casts cat (Calc pl c lim off ch sp co))
     \<longleftrightarrow> map_option (coerce (output_types cat ch)) c \<noteq> c"
  "fired (insert_casts cat (Join e jt l r sp co))
     \<longleftrightarrow> coerce (output_types cat l @ output_types cat r) e \<noteq> e"
  by (simp_all add: insert_casts_def Let_def)

lemma narrower_irrefl [simp]: "\<not> narrower t t"
  by (auto simp: narrower_def split: option.splits)


lemma type_of_coerce [simp]: "type_of sch (coerce sch e) = type_of sch e"
  by (cases e) (auto simp: widen_def split: list.splits option.splits)

lemma widen_stable:
  "widen sch a b = [x, y] \<Longrightarrow> coerce sch a = a \<Longrightarrow> coerce sch b = b
     \<Longrightarrow> coerce sch x = x \<and> coerce sch y = y \<and> widen sch x y = [x, y]"
  by (auto simp: widen_def split: option.splits if_splits)

lemma widen_length: "\<exists>x y. widen sch a b = [x, y]"
  by (auto simp: widen_def split: option.splits)

lemma coerce_idem [simp]: "coerce sch (coerce sch e) = coerce sch e"
proof (induction e)
  case (Call f es)
  show ?case
  proof (cases "map (coerce sch) es")
    case Nil then show ?thesis by simp
  next
    case (Cons a as)
    note outer = Cons
    show ?thesis
    proof (cases as)
      case Nil
      with outer Call have "coerce sch a = a" by (cases es) auto
      with outer Nil show ?thesis by simp
    next
      case (Cons b bs)
      show ?thesis
      proof (cases bs)
        case Nil
        from outer Cons Nil obtain a0 b0 where es: "es = [a0, b0]" "a = coerce sch a0" "b = coerce sch b0"
          by (cases es; cases "tl es") auto
        with Call have st: "coerce sch a = a" "coerce sch b = b" by auto
        obtain x y where w: "widen sch a b = [x, y]" using widen_length by blast
        from widen_stable [OF w st] es st w show ?thesis by simp
      next
        case (Cons c cs)
        have "map (coerce sch) (map (coerce sch) es) = map (coerce sch) es"
          using Call by auto
        with outer \<open>as = b # bs\<close> Cons show ?thesis by simp
      qed
    qed
  qed
qed simp_all


lemma base_types_length [simp]: "length (base_types cat t n) = n"
  by (simp add: base_types_def)

lemma output_types_identity:
  "map (type_of (base_types cat t n)) (identity_projection n) = base_types cat t n"
  by (rule nth_equalityI) (simp_all add: identity_projection_def)

lemma coerce_option_idem [simp]:
  "map_option (coerce s) (map_option (coerce s) c) = map_option (coerce s) c"
  by (cases c) simp_all

lemma coerce_and_condition:
  "map_option (coerce s) sc = sc \<Longrightarrow> map_option (coerce s) c = c
     \<Longrightarrow> map_option (coerce s) (and_condition sc c) = and_condition sc c"
  by (cases sc; cases c) simp_all

lemma rewrite_Scan [simp]:
  "rewrite_node cat (Scan t n pl c lim off agg sp co)
     = Scan t n pl (map_option (coerce (base_types cat t n)) c) lim off agg sp co"
  by (simp add: rewrite_node_def rule_defs insert_casts_def Let_def)

lemma rewrite_Join [simp]:
  "rewrite_node cat (Join c jt l r sp co)
     = Join (coerce (output_types cat l @ output_types cat r) c) jt l r sp co"
  by (simp add: rewrite_node_def rule_defs insert_casts_def Let_def)

lemma rewrite_Calc:
  "rewrite_node cat (Calc pl c lim off ch sp co) =
     (case inline_calc (Calc pl (map_option (coerce (output_types cat ch)) c) lim off ch sp co) of
        Some r \<Rightarrow> r
      | None \<Rightarrow> Calc pl (map_option (coerce (output_types cat ch)) c) lim off ch sp co)"
  by (simp add: rewrite_node_def inline_limit_def fuse_aggregate_def select_strategy_def
      eliminate_distinct_def insert_casts_def Let_def split: option.splits)

lemma rewrite_Sort:
  "rewrite_node cat (Sort ks f off ch sp co) =
     (case inline_limit (Sort ks f off ch sp co) of Some r \<Rightarrow> r | None \<Rightarrow> Sort ks f off ch sp co)"
  by (simp add: rewrite_node_def inline_calc_def fuse_aggregate_def select_strategy_def
      eliminate_distinct_def insert_casts_def split: option.splits)

lemma rewrite_Aggregate:
  "rewrite_node cat (Aggregate k gk calls hv ord ch sp co) =
     (case fuse_aggregate (Aggregate k gk calls hv ord ch sp co) of
        Some r \<Rightarrow> r
      | None \<Rightarrow> Aggregate (select_kind gk ord) gk calls hv ord ch sp co)"
  by (simp add: rewrite_node_def inline_calc_def inline_limit_def select_strategy_def
      eliminate_distinct_def insert_casts_def split: option.splits)

lemma rewrite_Distinct:
  "rewrite_node cat (Distinct ch sp co)
     = rewrite_node cat (Aggregate Hash {0..<arity ch} [] None False ch sp co)"
  by (simp add: rewrite_node_def rule_defs Let_def split: option.splits PlanNode.splits)

lemma pass_idem: "pass cat (pass cat t) = pass cat t"
proof (induction t)
  case (Scan) show ?case by (simp add: rewrite_Scan)
next
  case (Calc pl c lim off ch sp co)
  then show ?case
    by (cases "pass cat ch")
      (auto simp: rewrite_Calc rewrite_Scan inline_calc_def output_types_identity
        coerce_and_condition split: option.splits)
next
  case (Sort ks f off ch sp co)
  then show ?case
    by (cases "pass cat ch")
      (auto simp: rewrite_Sort rewrite_Calc rewrite_Scan inline_limit_def inline_calc_def
        split: option.splits PlanNode.splits if_splits)
next
  case (Join) then show ?case by (simp add: rewrite_Join)
next
  case (Aggregate k gk calls hv ord ch sp co)
  then show ?case
    by (cases "pass cat ch")
      (auto simp: rewrite_Aggregate rewrite_Scan fuse_aggregate_def select_kind_def
        split: option.splits)
next
  case (Distinct ch sp co)
  then show ?case
    by (cases "pass cat ch")
      (auto simp: rewrite_Distinct rewrite_Aggregate rewrite_Scan fuse_aggregate_def select_kind_def
        split: option.splits)
qed

lemma nodes_pos: "0 < nodes t"
  by (cases t) simp_all

lemma optimize_pass: "optimize cat t = Some (pass cat t)"
proof -
  obtain m where m: "nodes t = Suc m" using nodes_pos [of t] by (cases "nodes t") auto
  show ?thesis by (simp add: optimize_def Let_def pass_idem m)
qed

lemma not_matchable_pass: "\<not> matchable cat (pass cat t)"
proof (induction t)
  case (Scan) show ?case by (simp add: rule_matches_def rule_defs Let_def)
next
  case (Calc pl c lim off ch sp co)
  then show ?case
    by (cases "pass cat ch")
      (auto simp: rewrite_Calc rule_matches_def rule_defs Let_def output_types_identity
        coerce_and_condition split: option.splits if_splits)
next
  case (Sort ks f off ch sp co)
  then show ?case
    by (cases "pass cat ch")
      (auto simp: rewrite_Sort rule_matches_def rule_defs Let_def
        split: option.splits PlanNode.splits if_splits)
next
  case (Join) then show ?case by (simp add: rule_matches_def rule_defs Let_def)
next
  case (Aggregate k gk calls hv ord ch sp co)
  then show ?case
    by (cases "pass cat ch")
      (auto simp: rewrite_Aggregate rule_matches_def rule_defs Let_def
        split: option.splits if_splits)
next
  case (Distinct ch sp co)
  then show ?case
    by (cases "pass cat ch")
      (auto simp: rewrite_Distinct rewrite_Aggregate rule_matches_def rule_defs Let_def
        split: option.splits if_splits)
qed

lemma arity_rewrite: "arity (rewrite_node cat n) = arity n"
  by (cases n) (auto simp: rewrite_Calc rewrite_Sort rewrite_Aggregate rewrite_Distinct rule_defs split: option.splits PlanNode.splits if_splits)

lemma arity_pass: "arity (pass cat t) = arity t"
  by (induction t) (simp_all add: arity_rewrite)

lemma stages_rewrite: "stages (rewrite_node cat n) = stages n"
  by (cases n) (auto simp: rewrite_Calc rewrite_Sort rewrite_Aggregate rewrite_Distinct rule_defs split: option.splits PlanNode.splits if_splits)

lemma stages_pass: "stages (pass cat t) = stages t"
  by (induction t) (simp_all add: stages_rewrite)


lemma keep_Calc: "\<not> is_producer s \<Longrightarrow> s \<in> subtrees ch \<Longrightarrow> s \<in> subtrees (rewrite_node cat (Calc pl c lim off ch sp co))"
  by (cases ch) (auto simp: rewrite_Calc inline_calc_def)

lemma keep_Sort: "\<not> is_producer s \<Longrightarrow> s \<in> subtrees ch \<Longrightarrow> s \<in> subtrees (rewrite_node cat (Sort ks f off ch sp co))"
  by (cases ch) (auto simp: rewrite_Sort inline_limit_def)

lemma keep_Aggregate: "\<not> is_producer s \<Longrightarrow> s \<in> subtrees ch \<Longrightarrow> s \<in> subtrees (rewrite_node cat (Aggregate k gk calls hv ord ch sp co))"
  by (cases ch) (auto simp: rewrite_Aggregate fuse_aggregate_def)

lemma keep_Distinct: "\<not> is_producer s \<Longrightarrow> s \<in> subtrees ch \<Longrightarrow> s \<in> subtrees (rewrite_node cat (Distinct ch sp co))"
  by (simp add: rewrite_Distinct keep_Aggregate)

lemma descriptors_rewrite: "d \<in> descriptors n \<Longrightarrow> d \<in> descriptors (rewrite_node cat n)"
  by (cases n) (auto simp: rewrite_Calc rewrite_Sort rewrite_Aggregate rewrite_Distinct rule_defs split: option.splits PlanNode.splits if_splits)

lemma rewrite_Aggregate_cases:
  "AggregateDescriptor (select_kind gk ord) gk calls hv sp co
      \<in> descriptors (rewrite_node cat (Aggregate k gk calls hv ord c sp co))
   \<or> rewrite_node cat (Aggregate k gk calls hv ord c sp co)
      = Aggregate (select_kind gk ord) gk calls hv ord c sp co"
  by (cases c) (auto simp: rewrite_Aggregate fuse_aggregate_def)


lemma aggregate_kept:
  "Aggregate k gk calls hv ord ch sp co \<in> subtrees t
     \<Longrightarrow> AggregateDescriptor (select_kind gk ord) gk calls hv sp co \<in> descriptors (pass cat t)
       \<or> Aggregate (select_kind gk ord) gk calls hv ord (pass cat ch) sp co \<in> subtrees (pass cat t)"
proof (induction t)
  case (Aggregate k' gk' calls' hv' ord' ch' sp' co')
  show ?case
  proof (cases "Aggregate k gk calls hv ord ch sp co = Aggregate k' gk' calls' hv' ord' ch' sp' co'")
    case True
    with rewrite_Aggregate_cases [where gk = gk and ord = ord and calls = calls and hv = hv
        and sp = sp and co = co and cat = cat and k = k and c = "pass cat ch"] show ?thesis
      by auto
  next
    case False
    with Aggregate.prems have "Aggregate k gk calls hv ord ch sp co \<in> subtrees ch'" by auto
    from Aggregate.IH [OF this] show ?thesis by (auto simp: keep_Aggregate descriptors_rewrite)
  qed
qed (auto simp: keep_Calc keep_Sort keep_Distinct descriptors_rewrite)

lemma distinct_kept:
  "Distinct ch sp co \<in> subtrees t
     \<Longrightarrow> AggregateDescriptor (select_kind {0..<arity ch} False) {0..<arity ch} [] None sp co
           \<in> descriptors (pass cat t)
       \<or> Aggregate (select_kind {0..<arity ch} False) {0..<arity ch} [] None False (pass cat ch) sp co
           \<in> subtrees (pass cat t)"
proof (induction t)
  case (Distinct ch' sp' co')
  show ?case
  proof (cases "Distinct ch sp co = Distinct ch' sp' co'")
    case True
    have "pass cat (Distinct ch sp co)
        = rewrite_node cat (Aggregate Hash {0..<arity ch} [] None False (pass cat ch) sp co)"
      by (simp add: rewrite_Distinct arity_pass)
    with rewrite_Aggregate_cases [where gk = "{0..<arity ch}" and ord = False and calls = "[]"
        and hv = None and sp = sp and co = co and cat = cat and k = Hash and c = "pass cat ch"] True
    show ?thesis by auto
  next
    case False
    with Distinct.prems have "Distinct ch sp co \<in> subtrees ch'" by auto
    from Distinct.IH [OF this] show ?thesis by (auto simp: keep_Distinct descriptors_rewrite)
  qed
qed (auto simp: keep_Calc keep_Sort keep_Aggregate descriptors_rewrite)


lemma settled_subtree: "s \<in> subtrees t \<Longrightarrow> \<not> matchable cat t \<Longrightarrow> \<not> rule_matches cat s"
  by (induction t) auto

lemmas eval_defs = rewrite_node_def rule_defs identity_projection_def needed_columns_def
  select_kind_def R1_def R2_def atLeast0_lessThan_Suc insert_commute Let_def base_types_def
  test_catalog_def widen_def narrower_def insert_casts_def

text \<open>
  Claim C6. The rewrite pass is idempotent: for every catalog and every input plan the
  optimizer returns a plan, optimizing that plan again returns the identical plan, and no
  rule matches at any of its nodes.
\<close>

theorem rewrite_pass_idempotent:
  "\<exists>t'. optimize cat t = Some t' \<and> optimize cat t' = Some t' \<and> \<not> matchable cat t'"
  using optimize_pass [of cat t] optimize_pass [of cat "pass cat t"] not_matchable_pass [of cat t]
  by (simp add: pass_idem)





text \<open>
  Claim C2. Every Aggregate node of the input is in the optimized plan, fused into a scan
  or emitted as a node, with a kind that is Serial when its group keys are empty and Hash
  when they are not and its input is not known to be ordered on them; and every Aggregate
  node of the optimized plan has such a kind.
\<close>

theorem aggregate_strategy_selected:
  "(Aggregate k gk calls hv ord ch sp co \<in> subtrees t
      \<longrightarrow> (\<exists>t' ch' k'. optimize cat t = Some t' \<and> optimize cat ch = Some ch'
            \<and> (AggregateDescriptor k' gk calls hv sp co \<in> descriptors t'
               \<or> Aggregate k' gk calls hv ord ch' sp co \<in> subtrees t')
            \<and> (gk = {} \<longrightarrow> k' = Serial) \<and> (gk \<noteq> {} \<and> \<not> ord \<longrightarrow> k' = Hash)))
   \<and> (\<exists>t'. optimize cat t = Some t'
        \<and> (\<forall>k2 gk2 calls2 hv2 ord2 ch2 sp2 co2.
              Aggregate k2 gk2 calls2 hv2 ord2 ch2 sp2 co2 \<in> subtrees t'
              \<longrightarrow> (gk2 = {} \<longrightarrow> k2 = Serial) \<and> (gk2 \<noteq> {} \<and> \<not> ord2 \<longrightarrow> k2 = Hash)))"
proof (intro conjI impI)
  assume a: "Aggregate k gk calls hv ord ch sp co \<in> subtrees t"
  have "(gk = {} \<longrightarrow> select_kind gk ord = Serial) \<and> (gk \<noteq> {} \<and> \<not> ord \<longrightarrow> select_kind gk ord = Hash)"
    by (simp add: select_kind_def)
  with aggregate_kept [OF a]
  show "\<exists>t' ch' k'. optimize cat t = Some t' \<and> optimize cat ch = Some ch'
            \<and> (AggregateDescriptor k' gk calls hv sp co \<in> descriptors t'
               \<or> Aggregate k' gk calls hv ord ch' sp co \<in> subtrees t')
            \<and> (gk = {} \<longrightarrow> k' = Serial) \<and> (gk \<noteq> {} \<and> \<not> ord \<longrightarrow> k' = Hash)"
    unfolding optimize_pass by blast
next
  have "(gk2 = {} \<longrightarrow> k2 = Serial) \<and> (gk2 \<noteq> {} \<and> \<not> ord2 \<longrightarrow> k2 = Hash)"
    if "Aggregate k2 gk2 calls2 hv2 ord2 ch2 sp2 co2 \<in> subtrees (pass cat t)"
    for k2 gk2 calls2 hv2 ord2 ch2 sp2 co2
    using settled_subtree [OF that not_matchable_pass]
    by (auto simp: rule_matches_def select_strategy_def select_kind_def split: if_splits)
  then show "\<exists>t'. optimize cat t = Some t'
        \<and> (\<forall>k2 gk2 calls2 hv2 ord2 ch2 sp2 co2.
              Aggregate k2 gk2 calls2 hv2 ord2 ch2 sp2 co2 \<in> subtrees t'
              \<longrightarrow> (gk2 = {} \<longrightarrow> k2 = Serial) \<and> (gk2 \<noteq> {} \<and> \<not> ord2 \<longrightarrow> k2 = Hash))"
    unfolding optimize_pass by blast
qed

text \<open>
  The plans of \<open>select avg(ti) from R1 group by i\<close> (fused, Hash) and of a global
  \<open>count(*)\<close> above a join (emitted, Serial).
\<close>

theorem aggregate_strategy_selected_witness:
  "(\<exists>t'. optimize test_catalog (Calc [InputRef 1] None None None
              (Aggregate Serial {0} [AggregateCall ''AVG'' (Some (InputRef 1)) False] None False
                 (Calc [InputRef 0, InputRef 2] None None None R1 1 False) 1 False) 1 False) = Some t'
      \<and> AggregateDescriptor Hash {0} [AggregateCall ''AVG'' (Some (InputRef 1)) False] None 1 False
          \<in> descriptors t')
   \<and> (\<exists>t'. optimize test_catalog (Aggregate Hash {} [AggregateCall ''COUNT'' None False] None False
              (Join (Literal ''true'' (CHARACTER 4)) INNER R1 R2 1 False) 1 False) = Some t'
      \<and> Aggregate Serial {} [AggregateCall ''COUNT'' None False] None False
              (Join (Literal ''true'' (CHARACTER 4)) INNER R1 R2 1 False) 1 False \<in> subtrees t')"
proof -
  let ?a = "Aggregate Serial {0} [AggregateCall ''AVG'' (Some (InputRef 1)) False] None False
                 (Calc [InputRef 0, InputRef 2] None None None R1 1 False) 1 False"
  let ?t = "Calc [InputRef 1] None None None ?a 1 False"
  let ?j = "Join (Literal ''true'' (CHARACTER 4)) INNER R1 R2 1 False"
  let ?b = "Aggregate Hash {} [AggregateCall ''COUNT'' None False] None False ?j 1 False"
  have o: "optimize test_catalog ?t = Some (Calc [InputRef 1] None None None
      (Scan ''R1'' 6 [InputRef 0, InputRef 2] None None None
         (Some (AggregateDescriptor Hash {0} [AggregateCall ''AVG'' (Some (InputRef 1)) False] None 1 False))
         1 False) 1 False)"
    by (simp add: optimize_def eval_defs)
  have "?a \<in> subtrees ?t" by simp
  with aggregate_strategy_selected [where cat = test_catalog and t = ?t and k = Serial and gk = "{0}"
      and calls = "[AggregateCall ''AVG'' (Some (InputRef 1)) False]" and hv = None and ord = False
      and ch = "Calc [InputRef 0, InputRef 2] None None None R1 1 False" and sp = 1 and co = False]
  obtain t' ch' k' where t': "optimize test_catalog ?t = Some t'"
     and d: "AggregateDescriptor k' {0} [AggregateCall ''AVG'' (Some (InputRef 1)) False] None 1 False
               \<in> descriptors t'
          \<or> Aggregate k' {0} [AggregateCall ''AVG'' (Some (InputRef 1)) False] None False ch' 1 False
               \<in> subtrees t'"
     and k': "k' = Hash"
    by auto
  from t' d k' o have first: "\<exists>t'. optimize test_catalog ?t = Some t'
      \<and> AggregateDescriptor Hash {0} [AggregateCall ''AVG'' (Some (InputRef 1)) False] None 1 False
          \<in> descriptors t'" by auto
  have oj: "optimize test_catalog ?j = Some ?j" by (simp add: optimize_def eval_defs)
  have ob: "optimize test_catalog ?b = Some (Aggregate Serial {} [AggregateCall ''COUNT'' None False] None False ?j 1 False)"
    by (simp add: optimize_def eval_defs)
  have "?b \<in> subtrees ?b" by simp
  with aggregate_strategy_selected [where cat = test_catalog and t = ?b and k = Hash and gk = "{}"
      and calls = "[AggregateCall ''COUNT'' None False]" and hv = None and ord = False
      and ch = ?j and sp = 1 and co = False]
  obtain t2 ch2 k2 where t2: "optimize test_catalog ?b = Some t2" and c2: "optimize test_catalog ?j = Some ch2"
     and d2: "AggregateDescriptor k2 {} [AggregateCall ''COUNT'' None False] None 1 False
               \<in> descriptors t2
          \<or> Aggregate k2 {} [AggregateCall ''COUNT'' None False] None False ch2 1 False
               \<in> subtrees t2"
     and k2: "k2 = Serial"
    by auto
  from t2 c2 d2 k2 oj ob have second: "\<exists>t'. optimize test_catalog ?b = Some t'
      \<and> Aggregate Serial {} [AggregateCall ''COUNT'' None False] None False ?j 1 False \<in> subtrees t'"
    by auto
  from first second show ?thesis by blast
qed


lemma no_distinct_left: "\<not> matchable cat t \<Longrightarrow> Distinct x sp1 co1 \<notin> subtrees t"
  using settled_subtree [of "Distinct x sp1 co1" t]
  by (auto simp: rule_matches_def eliminate_distinct_def)

text \<open>
  Claim C3. A row-level DISTINCT over at least one selected column is in the optimized plan
  as a Hash aggregate, fused or emitted, whose group keys are exactly the selected columns
  and whose calls list is empty. An aggregate keeps its calls as they are, so a call with
  \<open>distinct = true\<close> stays that one call; the optimized plan has as many aggregation
  stages as the input, so no separate stage is added for it, and no DISTINCT marker is
  left.
\<close>

theorem distinct_as_hash_aggregate:
  "(Distinct ch sp co \<in> subtrees t \<and> 0 < arity ch
      \<longrightarrow> (\<exists>t' ch'. optimize cat t = Some t' \<and> optimize cat ch = Some ch'
            \<and> (AggregateDescriptor Hash {0..<arity ch} [] None sp co \<in> descriptors t'
               \<or> Aggregate Hash {0..<arity ch} [] None False ch' sp co \<in> subtrees t')))
   \<and> (Aggregate k gk calls hv ord ch sp co \<in> subtrees t
      \<longrightarrow> (\<exists>t' ch' k'. optimize cat t = Some t' \<and> optimize cat ch = Some ch'
            \<and> (AggregateDescriptor k' gk calls hv sp co \<in> descriptors t'
               \<or> Aggregate k' gk calls hv ord ch' sp co \<in> subtrees t')))
   \<and> (\<exists>t'. optimize cat t = Some t' \<and> stages t' = stages t
         \<and> (\<forall>x sp1 co1. Distinct x sp1 co1 \<notin> subtrees t'))"
proof (intro conjI impI)
  assume a: "Distinct ch sp co \<in> subtrees t \<and> 0 < arity ch"
  then have "select_kind {0..<arity ch} False = Hash" by (simp add: select_kind_def)
  with distinct_kept [of ch sp co t] a
  show "\<exists>t' ch'. optimize cat t = Some t' \<and> optimize cat ch = Some ch'
            \<and> (AggregateDescriptor Hash {0..<arity ch} [] None sp co \<in> descriptors t'
               \<or> Aggregate Hash {0..<arity ch} [] None False ch' sp co \<in> subtrees t')"
    unfolding optimize_pass by auto
next
  assume "Aggregate k gk calls hv ord ch sp co \<in> subtrees t"
  from aggregate_kept [OF this]
  show "\<exists>t' ch' k'. optimize cat t = Some t' \<and> optimize cat ch = Some ch'
            \<and> (AggregateDescriptor k' gk calls hv sp co \<in> descriptors t'
               \<or> Aggregate k' gk calls hv ord ch' sp co \<in> subtrees t')"
    unfolding optimize_pass by blast
next
  show "\<exists>t'. optimize cat t = Some t' \<and> stages t' = stages t
         \<and> (\<forall>x sp1 co1. Distinct x sp1 co1 \<notin> subtrees t')"
    using no_distinct_left [OF not_matchable_pass] by (simp add: optimize_pass stages_pass)
qed

text \<open>
  The plans of \<open>select distinct TI, I from R1\<close> and
  \<open>select max (distinct (TI)) from R1 group by I\<close> of \<open>testDistinct\<close>.
\<close>

theorem distinct_as_hash_aggregate_witness:
  "optimize test_catalog (Distinct (Calc [InputRef 2, InputRef 0] None None None R1 1 False) 1 False)
     = Some (Scan ''R1'' 6 [InputRef 2, InputRef 0] None None None
               (Some (AggregateDescriptor Hash {0, 1} [] None 1 False)) 1 False)
   \<and> (\<exists>t'. optimize test_catalog (Distinct (Calc [InputRef 2, InputRef 0] None None None R1 1 False) 1 False) = Some t'
        \<and> AggregateDescriptor Hash {0..<2} [] None 1 False \<in> descriptors t')
   \<and> (\<exists>t'. optimize test_catalog (Calc [InputRef 1] None None None
              (Aggregate Hash {0} [AggregateCall ''MAX'' (Some (InputRef 1)) True] None False
                 (Calc [InputRef 0, InputRef 2] None None None R1 1 False) 1 False) 1 False) = Some t'
        \<and> stages t' = 1
        \<and> AggregateDescriptor Hash {0} [AggregateCall ''MAX'' (Some (InputRef 1)) True] None 1 False
          \<in> descriptors t')"
proof -
  let ?c = "Calc [InputRef 2, InputRef 0] None None None R1 1 False"
  let ?d = "Distinct ?c 1 False"
  let ?a = "Aggregate Hash {0} [AggregateCall ''MAX'' (Some (InputRef 1)) True] None False
                 (Calc [InputRef 0, InputRef 2] None None None R1 1 False) 1 False"
  let ?t = "Calc [InputRef 1] None None None ?a 1 False"
  have od: "optimize test_catalog ?d = Some (Scan ''R1'' 6 [InputRef 2, InputRef 0] None None None
               (Some (AggregateDescriptor Hash {0, 1} [] None 1 False)) 1 False)"
    by (simp add: optimize_def eval_defs)
  have h: "?d \<in> subtrees ?d \<and> 0 < arity ?c" by simp
  from distinct_as_hash_aggregate [where cat = test_catalog and t = ?d and ch = ?c and sp = 1 and co = False,
      THEN conjunct1, rule_format, OF h]
  obtain t' ch' where t': "optimize test_catalog ?d = Some t'"
    and "AggregateDescriptor Hash {0..<arity ?c} [] None 1 False \<in> descriptors t'
         \<or> Aggregate Hash {0..<arity ?c} [] None False ch' 1 False \<in> subtrees t'"
    by blast
  with od have first: "\<exists>t'. optimize test_catalog ?d = Some t'
        \<and> AggregateDescriptor Hash {0..<2} [] None 1 False \<in> descriptors t'"
    by (auto simp: eval_defs)
  have ot: "optimize test_catalog ?t = Some (Calc [InputRef 1] None None None
      (Scan ''R1'' 6 [InputRef 0, InputRef 2] None None None
         (Some (AggregateDescriptor Hash {0} [AggregateCall ''MAX'' (Some (InputRef 1)) True] None 1 False))
         1 False) 1 False)"
    by (simp add: optimize_def eval_defs)
  from distinct_as_hash_aggregate [where cat = test_catalog and t = ?t]
  obtain t2 where "optimize test_catalog ?t = Some t2" "stages t2 = stages ?t" by blast
  with ot have second: "\<exists>t'. optimize test_catalog ?t = Some t' \<and> stages t' = 1
        \<and> AggregateDescriptor Hash {0} [AggregateCall ''MAX'' (Some (InputRef 1)) True] None 1 False
          \<in> descriptors t'" by auto
  from od first second show ?thesis by blast
qed

text \<open>
  Claim C4. When a Calc is fused into the Scan that is its child, the replacement is that
  Scan with the Calc's project list, and with the Calc's condition when the Scan had none,
  the Scan's own when the Calc has none, and the AND of the existing and the new condition
  when both are there. The optimizer does so for every Scan without a projection of its
  own, limit, offset and aggregate (conditions that miss no cast are taken as they are).
  \<open>select i from R1 where i = 5\<close> becomes a single scan with condition \<open>col0 = 5\<close> and
  project list \<open>[col0]\<close>.
\<close>

theorem calc_fused_into_scan:
  "(inline_calc (Calc pl c lim off (Scan tb n spl sc slim soff agg ssp sco) sp co) = Some r
      \<longrightarrow> (\<exists>c'. r = Scan tb n pl c' lim off None ssp sco
            \<and> (sc = None \<longrightarrow> c' = c) \<and> (c = None \<longrightarrow> c' = sc)
            \<and> (\<forall>e e'. sc = Some e \<and> c = Some e' \<longrightarrow> c' = Some (Call ''AND'' [e, e']))))
   \<and> (spl = identity_projection n \<and> slim = None \<and> soff = None \<and> agg = None
       \<and> map_option (coerce (base_types cat tb n)) sc = sc
       \<and> map_option (coerce (base_types cat tb n)) c = c
      \<longrightarrow> optimize cat (Calc pl c lim off (Scan tb n spl sc slim soff agg ssp sco) sp co)
          = Some (Scan tb n pl (and_condition sc c) lim off None ssp sco))
   \<and> optimize test_catalog
        (Calc [InputRef 0] (Some (Call ''='' [InputRef 0, Literal ''5'' INTEGER])) None None
           R1 1 False)
       = Some (Scan ''R1'' 6 [InputRef 0] (Some (Call ''='' [InputRef 0, Literal ''5'' INTEGER]))
                 None None None 1 False)"
proof -
  have a: "\<exists>c'. r = Scan tb n pl c' lim off None ssp sco
            \<and> (sc = None \<longrightarrow> c' = c) \<and> (c = None \<longrightarrow> c' = sc)
            \<and> (\<forall>e e'. sc = Some e \<and> c = Some e' \<longrightarrow> c' = Some (Call ''AND'' [e, e']))"
    if "inline_calc (Calc pl c lim off (Scan tb n spl sc slim soff agg ssp sco) sp co) = Some r"
    using that by (cases sc; cases c) (auto simp: inline_calc_def split: if_splits)
  have b: "optimize cat (Calc pl c lim off (Scan tb n spl sc slim soff agg ssp sco) sp co)
          = Some (Scan tb n pl (and_condition sc c) lim off None ssp sco)"
    if "spl = identity_projection n \<and> slim = None \<and> soff = None \<and> agg = None
       \<and> map_option (coerce (base_types cat tb n)) sc = sc
       \<and> map_option (coerce (base_types cat tb n)) c = c"
    using that by (simp add: optimize_pass rewrite_Calc inline_calc_def output_types_identity)
  have c: "optimize test_catalog
        (Calc [InputRef 0] (Some (Call ''='' [InputRef 0, Literal ''5'' INTEGER])) None None
           R1 1 False)
       = Some (Scan ''R1'' 6 [InputRef 0] (Some (Call ''='' [InputRef 0, Literal ''5'' INTEGER]))
                 None None None 1 False)"
    by (simp add: optimize_def eval_defs)
  from a b c show ?thesis by blast
qed

text \<open>The left input of the join of \<open>testSubqueriesJoin\<close>.\<close>

theorem calc_fused_into_scan_witness:
  "optimize test_catalog
     (Calc (identity_projection 6) (Some (Call ''='' [InputRef 0, Literal ''3'' INTEGER])) None None
        (Scan ''R1'' 6 (identity_projection 6) (Some (Call ''='' [InputRef 5, Literal ''foo'' (CHARACTER 3)]))
           None None None 1 False) 1 False)
   = Some (Scan ''R1'' 6 (identity_projection 6)
      (Some (Call ''AND'' [Call ''='' [InputRef 5, Literal ''foo'' (CHARACTER 3)],
                           Call ''='' [InputRef 0, Literal ''3'' INTEGER]])) None None None 1 False)"
proof -
  have h: "identity_projection 6 = identity_projection 6 \<and> (None :: nat option) = None
       \<and> (None :: nat option) = None \<and> (None :: AggregateDescriptor option) = None
       \<and> map_option (coerce (base_types test_catalog ''R1'' 6))
            (Some (Call ''='' [InputRef 5, Literal ''foo'' (CHARACTER 3)]))
          = Some (Call ''='' [InputRef 5, Literal ''foo'' (CHARACTER 3)])
       \<and> map_option (coerce (base_types test_catalog ''R1'' 6))
            (Some (Call ''='' [InputRef 0, Literal ''3'' INTEGER]))
          = Some (Call ''='' [InputRef 0, Literal ''3'' INTEGER])"
    by (simp add: base_types_def test_catalog_def widen_def narrower_def)
  from calc_fused_into_scan [where cat = test_catalog and spl = "identity_projection 6" and n = 6
      and slim = None and soff = None and agg = None and tb = "''R1''"
      and pl = "identity_projection 6"
      and sc = "Some (Call ''='' [InputRef 5, Literal ''foo'' (CHARACTER 3)])"
      and c = "Some (Call ''='' [InputRef 0, Literal ''3'' INTEGER])"
      and lim = None and off = None and ssp = 1 and sco = False and sp = 1 and co = False,
      THEN conjunct2, THEN conjunct1, rule_format, OF h]
  show ?thesis by simp
qed








end
